theory Spec2Isabelle
  imports Complex_Main "HOL-Library.Sublist"
begin

section \<open>Audio buffers at millisecond resolution\<close>

text \<open>
  \<^verbatim>\<open>helpers.py\<close> handles audio through pydub's \<^verbatim>\<open>AudioSegment\<close>, whose length, slices and
  overlay positions are all counted in milliseconds. A buffer is modelled as the list of its
  millisecond frames; \<^verbatim>\<open>len(seg)\<close> is \<open>length\<close>, \<^verbatim>\<open>seg1 + seg2\<close> is \<open>@\<close>, \<^verbatim>\<open>seg[n:]\<close> is
  \<open>drop n\<close>. How two frames sound when mixed, and what a silent frame is, are parameters
  (\<open>mix\<close>, \<open>sil\<close>). An absent buffer (\<^verbatim>\<open>None\<close>) is \<open>None\<close>.
\<close>

type_synonym 'a audio = "'a list"

definition AudioSegment_silent :: "'a \<Rightarrow> int \<Rightarrow> 'a audio" where
  "AudioSegment_silent sil duration = replicate (nat duration) sil"

text \<open>
  \<^verbatim>\<open>seg1.overlay(seg2, position=p)\<close> of pydub: the result is as long as \<^verbatim>\<open>seg1\<close>; \<^verbatim>\<open>seg2\<close> is
  mixed onto it from millisecond \<open>p\<close> on and cut where \<^verbatim>\<open>seg1\<close> ends.
\<close>

definition AudioSegment_overlay ::
  "('a \<Rightarrow> 'a \<Rightarrow> 'a) \<Rightarrow> 'a audio \<Rightarrow> 'a audio \<Rightarrow> nat \<Rightarrow> 'a audio" where
  "AudioSegment_overlay mix seg1 seg2 position =
     take position seg1 @ map2 mix (drop position seg1) seg2
       @ drop (position + length seg2) seg1"

definition overlay :: "('a \<Rightarrow> 'a \<Rightarrow> 'a) \<Rightarrow> 'a audio \<Rightarrow> 'a audio \<Rightarrow> int \<Rightarrow> 'a audio" where
  "overlay mix audio_1 audio_2 overlay_ms =
     (let ov = \<bar>overlay_ms\<bar>;
          overlap_point = int (length audio_1) - ov;
          overlap_point = max 0 overlap_point;
          crossover_audio = AudioSegment_overlay mix audio_1 audio_2 (nat overlap_point)
      in if int (length audio_2) > ov
         then crossover_audio @ drop (nat ov) audio_2
         else crossover_audio)"

definition combine_audio ::
  "('a \<Rightarrow> 'a \<Rightarrow> 'a) \<Rightarrow> 'a \<Rightarrow> 'a audio option \<Rightarrow> 'a audio option \<Rightarrow> int \<Rightarrow> 'a audio option" where
  "combine_audio mix sil audio_1 audio_2 offset =
     (case audio_1 of
        None \<Rightarrow> audio_2
      | Some a1 \<Rightarrow>
          (case audio_2 of
             None \<Rightarrow> audio_1
           | Some a2 \<Rightarrow>
               Some (if offset < 0 then overlay mix a1 a2 offset
                     else if offset > 0 then a1 @ (AudioSegment_silent sil offset @ a2)
                     else a1 @ a2)))"

section \<open>Tempo stages for the transcoder\<close>

text \<open>
  \<^verbatim>\<open>add_atempo_values_to_ffmpeg_args_string\<close> first builds the list \<^verbatim>\<open>tempos\<close> and then
  writes one \<^verbatim>\<open>atempo=\<close> stage per entry. Tempo factors are Python floats in the source
  and real numbers here; the only arithmetic on them is the division by \<open>0.5\<close>. The
  \<^verbatim>\<open>while\<close> loop has no bound of its own, so it is a partial function: \<open>None\<close> means that
  the loop does not return.
\<close>

partial_function (option) atempo_loop :: "real \<Rightarrow> real list \<Rightarrow> real list option" where
  "atempo_loop remaining tempos =
     (if remaining < 0.5 then
        (let remaining = remaining / 0.5 in
         if remaining \<ge> 0.5 then Some (tempos @ [remaining])
         else atempo_loop remaining (tempos @ [0.5]))
      else Some tempos)"

definition atempo_values :: "real \<Rightarrow> real list option" where
  "atempo_values tempo = (if tempo < 0.5 then atempo_loop tempo [0.5] else Some [tempo])"

text \<open>
  The argument string: \<open>str_float\<close> stands for Python's formatting of a float in an
  f-string; the string argument is \<open>None\<close> when the caller passes no string to extend.
  \<open>atempo_stage\<close> is the body of the \<^verbatim>\<open>for\<close> loop that writes the stages.
\<close>

definition atempo_stage :: "(real \<Rightarrow> string) \<Rightarrow> real \<Rightarrow> string option \<Rightarrow> string option" where
  "atempo_stage str_float tempo_n ffmpeg_args_string =
     (case ffmpeg_args_string of
        None \<Rightarrow> Some (''-af atempo='' @ str_float tempo_n)
      | Some s \<Rightarrow> Some (s @ '',atempo='' @ str_float tempo_n))"

definition add_atempo_values_to_ffmpeg_args_string ::
  "(real \<Rightarrow> string) \<Rightarrow> real \<Rightarrow> string option \<Rightarrow> string option option" where
  "add_atempo_values_to_ffmpeg_args_string str_float tempo ffmpeg_args_string =
     map_option (\<lambda>tempos. fold (atempo_stage str_float) tempos ffmpeg_args_string)
       (atempo_values tempo)"

section \<open>Python values the helpers work on\<close>

text \<open>
  An exception of the source is a value of \<open>py_error\<close>; a function that can raise returns
  \<open>py_error + 'a\<close>. Log calls have no effect on any result and are left out. Strings are
  byte strings.
\<close>

datatype py_error =
    UnboundLocalError string
  | KeyError string
  | AttributeError
  | TypeError
  | ValueError
  | RuntimeError
  | ZeroDivisionError
  | FileNotFoundError
  | UnicodeDecodeError
  | OSError string

text \<open>\<^verbatim>\<open>str.split()\<close> without arguments: split at runs of whitespace, no empty words.\<close>

definition isspace :: "char \<Rightarrow> bool" where
  "isspace c = (let n = (of_char c :: nat)
                in (9 \<le> n \<and> n \<le> 13) \<or> (28 \<le> n \<and> n \<le> 32) \<or> n = 133 \<or> n = 160)"

fun split_from :: "string \<Rightarrow> string \<Rightarrow> string list" where
  "split_from word [] = (if word = [] then [] else [word])"
| "split_from word (c # cs) =
     (if isspace c then (if word = [] then split_from [] cs else word # split_from [] cs)
      else split_from (word @ [c]) cs)"

definition str_split :: "string \<Rightarrow> string list" where
  "str_split s = split_from [] s"

text \<open>
  \<^verbatim>\<open>s.replace(old, new)\<close>: every occurrence of \<open>old\<close>, found from the left without overlap.
\<close>

fun str_replace :: "string \<Rightarrow> string \<Rightarrow> string \<Rightarrow> string" where
  "str_replace old new [] = (if old = [] then new else [])"
| "str_replace old new (c # cs) =
     (if old = [] then new @ c # str_replace old new cs
      else if prefix old (c # cs) then new @ str_replace old new (drop (length old - 1) cs)
      else c # str_replace old new cs)"

text \<open>\<^verbatim>\<open>xs.index(x)\<close>; \<open>None\<close> where Python raises \<^verbatim>\<open>ValueError\<close>.\<close>

fun list_index :: "'a list \<Rightarrow> 'a \<Rightarrow> nat option" where
  "list_index [] x = None"
| "list_index (y # ys) x = (if y = x then Some 0 else map_option Suc (list_index ys x))"

fun str_join :: "string \<Rightarrow> string list \<Rightarrow> string" where
  "str_join sep [] = []"
| "str_join sep [w] = w"
| "str_join sep (w # ws) = w @ sep @ str_join sep ws"



section \<open>The transcoder invoker\<close>

text \<open>
  The scratch folder is the set of paths that exist. Removing or moving a file that exists
  succeeds. What is outside \<^verbatim>\<open>helpers.py\<close> is an \<open>environment\<close>: the two functions of
  \<^verbatim>\<open>filesystem.py\<close> that store and load a buffer, and the transcoder process, which gets
  the command line and the folder and gives back its exit code, whether its error output
  decodes as UTF-8, and the folder as it left it.
\<close>

type_synonym fs = "string set"

definition os_path_exists :: "string \<Rightarrow> fs \<Rightarrow> bool" where
  "os_path_exists path files = (path \<in> files)"

definition os_remove :: "string \<Rightarrow> fs \<Rightarrow> py_error + fs" where
  "os_remove path files =
     (if path \<in> files then Inr (files - {path}) else Inl FileNotFoundError)"

definition shutil_move :: "string \<Rightarrow> string \<Rightarrow> fs \<Rightarrow> py_error + fs" where
  "shutil_move src dst files =
     (if src \<in> files then Inr (insert dst (files - {src})) else Inl FileNotFoundError)"

record process_result =
  returncode :: int
  stderr_is_utf8 :: bool

record 'a environment =
  async_save_audio_to_folder ::
    "'a audio \<Rightarrow> string \<Rightarrow> string \<Rightarrow> fs \<Rightarrow> py_error + (string option \<times> fs)"
  async_load_audio :: "string \<Rightarrow> fs \<Rightarrow> py_error + 'a audio option"
  Popen_communicate :: "string list \<Rightarrow> fs \<Rightarrow> py_error + (process_result \<times> fs)"

text \<open>What \<^verbatim>\<open>ffmpeg_convert_from_file\<close> returns: \<^verbatim>\<open>False\<close> or a path.\<close>

datatype py_path = PyFalse | PyStr string

text \<open>
  The inner \<^verbatim>\<open>try\<close> of \<^verbatim>\<open>ffmpeg_convert_from_file\<close>, which assigns \<^verbatim>\<open>converted_file_path\<close>
  or leaves it unassigned (\<open>None\<close>). A missing \<^verbatim>\<open>-f\<close> and a \<^verbatim>\<open>-f\<close> in last position raise
  inside the \<^verbatim>\<open>try\<close> and take the \<^verbatim>\<open>except\<close> branch. The index is a natural number, so
  the source's test \<^verbatim>\<open>index >= 0\<close> is true.
\<close>

definition select_converted_file_path :: "string \<Rightarrow> string \<Rightarrow> string list \<Rightarrow> string option" where
  "select_converted_file_path file_path ffmpeg_args ffmpeg_cmd =
     (case list_index ffmpeg_cmd ''-f'' of
        None \<Rightarrow> Some (str_replace ''.mp3'' ''_converted.mp3'' file_path)
      | Some index \<Rightarrow>
          if length ffmpeg_args \<ge> index then
            (if index + 1 < length ffmpeg_cmd then
               (let file_extension = ffmpeg_cmd ! (index + 1)
                in if file_extension \<noteq> ''mp3''
                   then Some (str_replace ''.mp3'' (''.'' @ file_extension) file_path)
                   else None)
             else Some (str_replace ''.mp3'' ''_converted.mp3'' file_path))
          else None)"

text \<open>The output path, after the check against the input path.\<close>

definition converted_file_path_for :: "string \<Rightarrow> string \<Rightarrow> py_error + string" where
  "converted_file_path_for file_path ffmpeg_args =
     (let ffmpeg_cmd = [''ffmpeg'', ''-i'', file_path] @ str_split ffmpeg_args
      in case select_converted_file_path file_path ffmpeg_args ffmpeg_cmd of
           None \<Rightarrow> Inl (UnboundLocalError ''converted_file_path'')
         | Some converted_file_path \<Rightarrow>
             Inr (if converted_file_path = file_path
                  then str_replace ''.mp3'' ''_converted.mp3'' file_path
                  else converted_file_path))"

text \<open>
  The body of the outer \<^verbatim>\<open>try\<close>. An exception leaves it together with the value of
  \<^verbatim>\<open>ffmpeg_cmd_string\<close> at that moment (\<open>None\<close> while unassigned), which both handlers
  read for their log line.
\<close>

definition ffmpeg_convert_try ::
  "'a environment \<Rightarrow> string \<Rightarrow> string \<Rightarrow> fs \<Rightarrow> ((py_error \<times> string option) + py_path) \<times> fs" where
  "ffmpeg_convert_try env file_path ffmpeg_args files =
     (let ffmpeg_cmd = [''ffmpeg'', ''-i'', file_path] @ str_split ffmpeg_args
      in case converted_file_path_for file_path ffmpeg_args of
           Inl e \<Rightarrow> (Inl (e, None), files)
         | Inr converted_file_path \<Rightarrow>
             (case (if os_path_exists converted_file_path files
                    then os_remove converted_file_path files else Inr files) of
                Inl e \<Rightarrow> (Inl (e, None), files)
              | Inr files1 \<Rightarrow>
                  (let ffmpeg_cmd = ffmpeg_cmd @ [converted_file_path];
                       ffmpeg_cmd_string = str_join '' '' ffmpeg_cmd
                   in case Popen_communicate env ffmpeg_cmd files1 of
                        Inl e \<Rightarrow> (Inl (e, Some ffmpeg_cmd_string), files1)
                      | Inr (ffmpeg_process, files2) \<Rightarrow>
                          if returncode ffmpeg_process \<noteq> 0 then
                            (if stderr_is_utf8 ffmpeg_process then (Inr PyFalse, files2)
                             else (Inl (UnicodeDecodeError, Some ffmpeg_cmd_string), files2))
                          else if converted_file_path
                                    = str_replace ''.mp3'' ''_converted.mp3'' file_path then
                            (case shutil_move converted_file_path file_path files2 of
                               Inr files3 \<Rightarrow> (Inr (PyStr file_path), files3)
                             | Inl e \<Rightarrow> (Inr PyFalse, files2))
                          else (Inr (PyStr converted_file_path), files2))))"

definition ffmpeg_convert_from_file ::
  "'a environment \<Rightarrow> string \<Rightarrow> string \<Rightarrow> fs \<Rightarrow> (py_error + py_path) \<times> fs" where
  "ffmpeg_convert_from_file env file_path ffmpeg_args files =
     (if \<not> os_path_exists file_path files then (Inr PyFalse, files)
      else case ffmpeg_convert_try env file_path ffmpeg_args files of
             (Inr returned, files') \<Rightarrow> (Inr returned, files')
           | (Inl (error, ffmpeg_cmd_string), files') \<Rightarrow>
               (case ffmpeg_cmd_string of
                  None \<Rightarrow> (Inl (UnboundLocalError ''ffmpeg_cmd_string''), files')
                | Some _ \<Rightarrow> (Inr (PyStr file_path), files')))"

text \<open>
  One round of the clean-up loop of \<^verbatim>\<open>async_ffmpeg_convert_from_audio_segment\<close>. In that
  function, a buffer without frames is as false to \<^verbatim>\<open>not\<close> as an absent one (pydub defines
  \<^verbatim>\<open>__len__\<close>), and the empty string stands for both \<^verbatim>\<open>""\<close> and \<^verbatim>\<open>None\<close>.
\<close>

definition remove_if_present :: "string \<Rightarrow> fs \<Rightarrow> fs" where
  "remove_if_present file_path files =
     (if file_path \<noteq> [] \<and> os_path_exists file_path files
      then (case os_remove file_path files of Inr files' \<Rightarrow> files' | Inl e \<Rightarrow> files)
      else files)"

definition async_ffmpeg_convert_from_audio_segment ::
  "'a environment \<Rightarrow> 'a audio option \<Rightarrow> string \<Rightarrow> string \<Rightarrow> fs
     \<Rightarrow> (py_error + 'a audio option) \<times> fs" where
  "async_ffmpeg_convert_from_audio_segment env audio_segment ffmpeg_args folder files =
     (case audio_segment of
        None \<Rightarrow> (Inr audio_segment, files)
      | Some audio \<Rightarrow>
          if audio = [] \<or> ffmpeg_args = [] \<or> folder = [] then (Inr audio_segment, files)
          else
            (case async_save_audio_to_folder env audio folder ''temp_segment.mp3'' files of
               Inl e \<Rightarrow> (Inl e, files)
             | Inr (None, files1) \<Rightarrow> (Inr audio_segment, files1)
             | Inr (Some temp_audio_file, files1) \<Rightarrow>
                 if temp_audio_file = [] then (Inr audio_segment, files1)
                 else
                   (case ffmpeg_convert_from_file env temp_audio_file ffmpeg_args files1 of
                      (Inl e, files2) \<Rightarrow> (Inl e, files2)
                    | (Inr converted_audio_file, files2) \<Rightarrow>
                        (let ret_val =
                               (case converted_audio_file of
                                  PyFalse \<Rightarrow> audio_segment
                                | PyStr path \<Rightarrow>
                                    if length path < 5 then audio_segment
                                    else (case async_load_audio env path files2 of
                                            Inr loaded \<Rightarrow> loaded
                                          | Inl e \<Rightarrow> audio_segment));
                             files3 = remove_if_present temp_audio_file files2;
                             files4 = (case converted_audio_file of
                                         PyFalse \<Rightarrow> files3
                                       | PyStr path \<Rightarrow> remove_if_present path files3)
                         in (Inr ret_val, files4)))))"


text \<open>
  A scratch folder to run the invoker in: storing a buffer creates \<open>folder/file_name\<close>,
  loading a file gives the buffer \<open>loaded\<close>, and the transcoder writes its output file (the
  last word of the command line) and exits with code \<open>rc\<close>.
\<close>

definition scratch_folder_env :: "int \<Rightarrow> 'a audio \<Rightarrow> 'a environment" where
  "scratch_folder_env rc loaded =
     \<lparr> async_save_audio_to_folder =
         (\<lambda>audio folder file_name files.
            Inr (Some (folder @ ''/'' @ file_name), insert (folder @ ''/'' @ file_name) files)),
       async_load_audio = (\<lambda>path files. Inr (Some loaded)),
       Popen_communicate =
         (\<lambda>cmd files. Inr (\<lparr> returncode = rc, stderr_is_utf8 = True \<rparr>, insert (last cmd) files)) \<rparr>"

section \<open>Devices, volume fades and waiters\<close>

text \<open>
  What the helpers read of a device is its volume attribute (absent for a device that
  reports none); the registry maps the ids of the live devices to their state. \<open>hass\<close>
  carries the registry and, in order, the volume commands issued and the sleeps taken. How a
  device answers a volume command (\<open>None\<close>: the service call raises, which the source catches
  and logs) and what happens to the registry while the task sleeps belong to the \<open>devices\<close>.
\<close>

record player_state =
  volume_level :: "real option"

type_synonym state_registry = "string \<rightharpoonup> player_state"

datatype event = VolumeSet string real | Sleep real

record hass =
  states :: state_registry
  events :: "event list"

record devices =
  volume_set_service :: "string \<Rightarrow> real \<Rightarrow> state_registry \<Rightarrow> state_registry option"
  during_sleep :: "real \<Rightarrow> state_registry \<Rightarrow> state_registry"

text \<open>
  A device record of the source is a dictionary: its id, the entries a volume key can name,
  and \<^verbatim>\<open>volume_steps\<close>, which is absent until a fade stores it. A volume key is a number or
  the name of an entry.
\<close>

datatype py_value = Num real | Str string

record media_player_dict =
  entity_id :: string
  entries :: "string \<rightharpoonup> py_value"
  volume_steps :: "real list option"

text \<open>\<^verbatim>\<open>round(x, ndigits)\<close>, on real numbers, halves to the even neighbour.\<close>

definition round_half_even :: "real \<Rightarrow> int" where
  "round_half_even x =
     (let f = \<lfloor>x\<rfloor>; r = x - of_int f
      in if r < 1/2 then f else if r > 1/2 then f + 1 else if even f then f else f + 1)"

definition py_round :: "real \<Rightarrow> nat \<Rightarrow> real" where
  "py_round x ndigits = of_int (round_half_even (x * 10 ^ ndigits)) / 10 ^ ndigits"

definition time_sleep :: "devices \<Rightarrow> real \<Rightarrow> hass \<Rightarrow> hass" where
  "time_sleep dev delay h =
     h\<lparr>states := during_sleep dev delay (states h), events := events h @ [Sleep delay]\<rparr>"

definition call_volume_set :: "devices \<Rightarrow> string \<Rightarrow> real \<Rightarrow> hass \<Rightarrow> hass" where
  "call_volume_set dev entity volume h =
     (case volume_set_service dev entity volume (states h) of
        Some states' \<Rightarrow> h\<lparr>states := states', events := events h @ [VolumeSet entity volume]\<rparr>
      | None \<Rightarrow> h\<lparr>events := events h @ [VolumeSet entity volume]\<rparr>)"

text \<open>\<^verbatim>\<open>media_player_dict.get(str(volume_key), volume_key)\<close>\<close>

definition dict_get_volume :: "media_player_dict \<Rightarrow> py_value \<Rightarrow> py_value" where
  "dict_get_volume d volume_key =
     (case volume_key of
        Str k \<Rightarrow> (case entries d k of Some v \<Rightarrow> v | None \<Rightarrow> volume_key)
      | Num x \<Rightarrow> volume_key)"

definition current_volume_level :: "hass \<Rightarrow> string \<Rightarrow> py_error + real" where
  "current_volume_level h entity =
     (case states h entity of
        None \<Rightarrow> Inl AttributeError
      | Some st \<Rightarrow> Inr (case volume_level st of None \<Rightarrow> 0 | Some v \<Rightarrow> v))"

text \<open>One device in one step of the fade: the body of the inner \<^verbatim>\<open>for\<close> loop.\<close>

definition fade_player ::
  "devices \<Rightarrow> int \<Rightarrow> py_value \<Rightarrow> nat \<Rightarrow> media_player_dict \<Rightarrow> hass
     \<Rightarrow> py_error + (media_player_dict \<times> hass)" where
  "fade_player dev fade_steps volume_key step d h =
     (let target_volume = dict_get_volume d volume_key
      in case current_volume_level h (entity_id d) of
           Inl e \<Rightarrow> Inl e
         | Inr current_volume \<Rightarrow>
             if target_volume = Num current_volume \<and> step = 0 then Inr (d, h)
             else if target_volume = Num (- 1) then Inr (d, h)
             else
               (case (if step = 0 then
                        (case target_volume of
                           Str _ \<Rightarrow> Inl TypeError
                         | Num t \<Rightarrow>
                             (let volume_step = (t - current_volume) / of_int fade_steps
                              in Inr (d\<lparr>volume_steps :=
                                         Some (map (\<lambda>i. current_volume + volume_step * of_nat i)
                                                 [1..<nat fade_steps])\<rparr>)))
                      else Inr d) of
                  Inl e \<Rightarrow> Inl e
                | Inr d1 \<Rightarrow>
                    (case volume_steps d1 of
                       None \<Rightarrow> Inl (KeyError ''volume_steps'')
                     | Some steps \<Rightarrow>
                         (case (if length steps > step then Inr (steps ! step)
                                else (case target_volume of
                                        Num t \<Rightarrow> Inr t
                                      | Str _ \<Rightarrow> Inl ValueError)) of
                            Inl e \<Rightarrow> Inl e
                          | Inr v \<Rightarrow>
                              (let new_volume = py_round (max v 0) 4
                               in Inr (d1, call_volume_set dev (entity_id d1) new_volume h))))))"

fun fade_players ::
  "devices \<Rightarrow> int \<Rightarrow> py_value \<Rightarrow> nat \<Rightarrow> media_player_dict list \<Rightarrow> hass
     \<Rightarrow> py_error + (media_player_dict list \<times> hass)" where
  "fade_players dev fade_steps volume_key step [] h = Inr ([], h)"
| "fade_players dev fade_steps volume_key step (d # ds) h =
     (case fade_player dev fade_steps volume_key step d h of
        Inl e \<Rightarrow> Inl e
      | Inr (d', h') \<Rightarrow>
          (case fade_players dev fade_steps volume_key step ds h' of
             Inl e \<Rightarrow> Inl e
           | Inr (ds', h'') \<Rightarrow> Inr (d' # ds', h'')))"

fun fade_loop ::
  "devices \<Rightarrow> int \<Rightarrow> real \<Rightarrow> py_value \<Rightarrow> nat list \<Rightarrow> media_player_dict list \<Rightarrow> hass
     \<Rightarrow> py_error + (media_player_dict list \<times> hass)" where
  "fade_loop dev fade_steps delay_s volume_key [] ds h = Inr (ds, h)"
| "fade_loop dev fade_steps delay_s volume_key (step # steps) ds h =
     (case fade_players dev fade_steps volume_key step ds h of
        Inl e \<Rightarrow> Inl e
      | Inr (ds', h') \<Rightarrow>
          fade_loop dev fade_steps delay_s volume_key steps ds'
            (if int step \<noteq> fade_steps - 1 then time_sleep dev delay_s h' else h'))"

text \<open>The branch without steps: one device set directly.\<close>

definition set_player_directly ::
  "devices \<Rightarrow> py_value \<Rightarrow> media_player_dict \<Rightarrow> hass \<Rightarrow> py_error + hass" where
  "set_player_directly dev volume_key d h =
     (case current_volume_level h (entity_id d) of
        Inl e \<Rightarrow> Inl e
      | Inr current_volume \<Rightarrow>
          (case dict_get_volume d volume_key of
             Str _ \<Rightarrow> Inl TypeError
           | Num target_volume \<Rightarrow>
               if target_volume \<ge> 0 \<and> target_volume \<noteq> current_volume
               then Inr (call_volume_set dev (entity_id d) target_volume h)
               else Inr h))"

fun set_players_directly ::
  "devices \<Rightarrow> py_value \<Rightarrow> media_player_dict list \<Rightarrow> hass \<Rightarrow> py_error + hass" where
  "set_players_directly dev volume_key [] h = Inr h"
| "set_players_directly dev volume_key (d # ds) h =
     (case set_player_directly dev volume_key d h of
        Inl e \<Rightarrow> Inl e
      | Inr h' \<Rightarrow> set_players_directly dev volume_key ds h')"

definition async_set_volume_for_media_players ::
  "devices \<Rightarrow> real \<Rightarrow> media_player_dict list \<Rightarrow> py_value \<Rightarrow> int \<Rightarrow> hass
     \<Rightarrow> py_error + (media_player_dict list \<times> hass)" where
  "async_set_volume_for_media_players dev TRANSITION_STEP_MS media_player_dicts volume_key
       fade_duration_ms h =
     (if media_player_dicts = [] then Inr (media_player_dicts, h)
      else
        (let fade_duration = of_int fade_duration_ms / 1000
         in if fade_duration > 0 \<and> TRANSITION_STEP_MS = 0 then Inl ZeroDivisionError
            else
              (let fade_steps = (if fade_duration > 0
                                 then \<lceil>(fade_duration * 1000) / TRANSITION_STEP_MS\<rceil> else 1)
               in if fade_steps = 0 then Inl ZeroDivisionError
                  else
                    (let delay_s = fade_duration / of_int fade_steps
                     in if fade_steps > 1
                        then fade_loop dev fade_steps delay_s volume_key [0..<nat fade_steps]
                               media_player_dicts h
                        else (case set_players_directly dev volume_key media_player_dicts h of
                                Inl e \<Rightarrow> Inl e
                              | Inr h' \<Rightarrow> Inr (media_player_dicts, h'))))))"

text \<open>
  Devices that take over every volume they are sent, one of them in the living room, and a
  registry in which it plays at volume \<open>v\<close>.
\<close>

definition obedient_devices :: devices where
  "obedient_devices =
     \<lparr> volume_set_service =
         (\<lambda>entity volume reg. Some (reg(entity \<mapsto> \<lparr>volume_level = Some volume\<rparr>))),
       during_sleep = (\<lambda>delay reg. reg) \<rparr>"

definition living_room :: media_player_dict where
  "living_room = \<lparr> entity_id = ''media_player.living_room'', entries = Map.empty, volume_steps = None \<rparr>"

definition hass_at :: "real \<Rightarrow> hass" where
  "hass_at v = \<lparr> states = [''media_player.living_room'' \<mapsto> \<lparr>volume_level = Some v\<rparr>], events = [] \<rparr>"

definition poll_delay :: real where
  "poll_delay = 0.2"

text \<open>
  The \<^verbatim>\<open>for\<close> loop of the shared waiter deletes from the list it iterates over: the
  iterator is an index into the list as it is now, and \<^verbatim>\<open>del still_waiting[index]\<close>
  removes the first entry equal to the current one.
\<close>

function scan_still_waiting ::
  "(media_player_dict \<Rightarrow> py_error + bool) \<Rightarrow> nat \<Rightarrow> media_player_dict list
     \<Rightarrow> py_error + media_player_dict list" where
  "scan_still_waiting condition i still_waiting =
     (if i < length still_waiting then
        (case condition (still_waiting ! i) of
           Inl e \<Rightarrow> Inl e
         | Inr True \<Rightarrow>
             scan_still_waiting condition (Suc i) (remove1 (still_waiting ! i) still_waiting)
         | Inr False \<Rightarrow> scan_still_waiting condition (Suc i) still_waiting)
      else Inr still_waiting)"
  by pat_completeness auto
termination
  by (relation "measure (\<lambda>(condition, i, still_waiting). length still_waiting - i)")
     (auto simp: length_remove1)

text \<open>
  The \<^verbatim>\<open>while\<close> loop of the shared waiter over its local variables; \<open>rounds\<close> counts the
  rounds taken.
\<close>

record wait_state =
  still_waiting :: "media_player_dict list"
  timeout_left :: real
  rounds :: nat
  world :: hass

function wait_loop ::
  "devices \<Rightarrow> (hass \<Rightarrow> media_player_dict \<Rightarrow> py_error + bool) \<Rightarrow> wait_state
     \<Rightarrow> py_error + wait_state" where
  "wait_loop dev condition s =
     (if length (still_waiting s) > 0 \<and> timeout_left s > 0 then
        (case scan_still_waiting (condition (world s)) 0 (still_waiting s) of
           Inl e \<Rightarrow> Inl e
         | Inr remaining \<Rightarrow>
             wait_loop dev condition
               \<lparr> still_waiting = remaining,
                 timeout_left = timeout_left s - poll_delay,
                 rounds = Suc (rounds s),
                 world = (if length remaining > 0 then time_sleep dev poll_delay (world s)
                          else world s) \<rparr>)
      else Inr s)"
  by pat_completeness auto
termination
proof (relation "measure (\<lambda>(dev, condition, s). nat \<lceil>timeout_left s / poll_delay\<rceil>)")
  show "wf (measure (\<lambda>(dev, condition, s). nat \<lceil>timeout_left s / poll_delay\<rceil>))"
    by simp
next
  fix dev :: devices and condition :: "hass \<Rightarrow> media_player_dict \<Rightarrow> py_error + bool"
    and s :: wait_state and remaining :: "media_player_dict list"
  assume "0 < length (still_waiting s) \<and> 0 < timeout_left s"
  then have pos: "0 < timeout_left s" by simp
  have "\<lceil>(timeout_left s - poll_delay) / poll_delay\<rceil> = \<lceil>timeout_left s / poll_delay\<rceil> - 1"
    by (simp add: poll_delay_def diff_divide_distrib)
  moreover from pos have "0 < \<lceil>timeout_left s / poll_delay\<rceil>"
    by (simp add: poll_delay_def)
  ultimately show "((dev, condition,
            \<lparr> still_waiting = remaining, timeout_left = timeout_left s - poll_delay,
              rounds = Suc (rounds s),
              world = (if length remaining > 0 then time_sleep dev poll_delay (world s)
                       else world s) \<rparr>),
           (dev, condition, s))
          \<in> measure (\<lambda>(dev, condition, s). nat \<lceil>timeout_left s / poll_delay\<rceil>)"
    by simp
qed

definition async_wait_until_media_players ::
  "devices \<Rightarrow> (hass \<Rightarrow> media_player_dict \<Rightarrow> py_error + bool) \<Rightarrow> media_player_dict list \<Rightarrow> real
     \<Rightarrow> hass \<Rightarrow> py_error + bool" where
  "async_wait_until_media_players dev condition media_player_dicts timeout h =
     (if length media_player_dicts = 0 then Inr False
      else if \<exists>d \<in> set media_player_dicts. states h (entity_id d) = None then Inr False
      else (case wait_loop dev condition
                   \<lparr> still_waiting = media_player_dicts, timeout_left = timeout, rounds = 0,
                     world = h \<rparr> of
              Inl e \<Rightarrow> Inl e
            | Inr s \<Rightarrow> Inr (length (still_waiting s) = 0)))"

text \<open>
  The volume-level waiter. Its loop returns the result, what is left of the budget, the rounds
  taken and the world.
\<close>

definition volume_reached_at :: "hass \<Rightarrow> media_player_dict list \<Rightarrow> real \<Rightarrow> bool" where
  "volume_reached_at h media_player_dicts target_volume =
     list_all (\<lambda>d. case states h (entity_id d) of
                      None \<Rightarrow> True
                    | Some st \<Rightarrow>
                        py_round (case volume_level st of None \<Rightarrow> - 1 | Some v \<Rightarrow> v) 3
                          = py_round target_volume 3)
       media_player_dicts"

record volume_wait =
  reached :: bool
  budget_left :: real
  polls :: nat
  world_after :: hass

function volume_wait_loop ::
  "devices \<Rightarrow> media_player_dict list \<Rightarrow> real \<Rightarrow> real \<Rightarrow> nat \<Rightarrow> hass \<Rightarrow> volume_wait" where
  "volume_wait_loop dev media_player_dicts target_volume timeout n h =
     (if timeout > 0 then
        (if volume_reached_at h media_player_dicts target_volume
         then \<lparr> reached = True, budget_left = timeout, polls = Suc n, world_after = h \<rparr>
         else volume_wait_loop dev media_player_dicts target_volume (timeout - poll_delay)
                (Suc n) (time_sleep dev poll_delay h))
      else \<lparr> reached = False, budget_left = timeout, polls = n, world_after = h \<rparr>)"
  by pat_completeness auto
termination
proof (relation "measure (\<lambda>(dev, ds, target, timeout, n, h). nat \<lceil>timeout / poll_delay\<rceil>)")
  show "wf (measure (\<lambda>(dev :: devices, ds :: media_player_dict list, target :: real,
      timeout :: real, n :: nat, h :: hass). nat \<lceil>timeout / poll_delay\<rceil>))"
    by simp
next
  fix dev :: devices and ds :: "media_player_dict list" and target timeout :: real
    and n :: nat and h :: hass
  assume pos: "0 < timeout"
  have "\<lceil>(timeout - poll_delay) / poll_delay\<rceil> = \<lceil>timeout / poll_delay\<rceil> - 1"
    by (simp add: poll_delay_def diff_divide_distrib)
  moreover from pos have "0 < \<lceil>timeout / poll_delay\<rceil>"
    by (simp add: poll_delay_def)
  ultimately show "((dev, ds, target, timeout - poll_delay, Suc n, time_sleep dev poll_delay h),
           (dev, ds, target, timeout, n, h))
          \<in> measure (\<lambda>(dev, ds, target, timeout, n, h). nat \<lceil>timeout / poll_delay\<rceil>)"
    by simp
qed

definition async_wait_until_media_player_volume_level ::
  "devices \<Rightarrow> media_player_dict list \<Rightarrow> real \<Rightarrow> real \<Rightarrow> hass \<Rightarrow> bool" where
  "async_wait_until_media_player_volume_level dev media_player_dicts target_volume timeout h =
     reached (volume_wait_loop dev media_player_dicts target_volume timeout 0 h)"

text \<open>A predicate that no device satisfies.\<close>

definition never_satisfied :: "hass \<Rightarrow> media_player_dict \<Rightarrow> py_error + bool" where
  "never_satisfied h d = Inr False"


section \<open>The segment parser\<close>

text \<open>
  What \<^verbatim>\<open>yaml.safe_load\<close> can return. A mapping keeps its entries in order, as a Python
  dictionary does; its keys are strings.
\<close>

datatype yaml =
    YNull
  | YBool bool
  | YInt int
  | YFloat real
  | YStr string
  | YList "yaml list"
  | YDict "(string \<times> yaml) list"

type_synonym py_dict = "(string \<times> yaml) list"

text \<open>\<^verbatim>\<open>k in d\<close>, \<^verbatim>\<open>d[k] = v\<close> and \<^verbatim>\<open>del d[k]\<close>\<close>

definition dict_contains :: "string \<Rightarrow> py_dict \<Rightarrow> bool" where
  "dict_contains k d = (map_of d k \<noteq> None)"

fun dict_set :: "string \<Rightarrow> yaml \<Rightarrow> py_dict \<Rightarrow> py_dict" where
  "dict_set k v [] = [(k, v)]"
| "dict_set k v ((k', v') # d) = (if k' = k then (k, v) # d else (k', v') # dict_set k v d)"

definition dict_del :: "string \<Rightarrow> py_dict \<Rightarrow> py_dict" where
  "dict_del k d = filter (\<lambda>(k', v). k' \<noteq> k) d"

text \<open>\<^verbatim>\<open>str.lower()\<close>, on the letters A to Z\<close>

definition char_lower :: "char \<Rightarrow> char" where
  "char_lower c = (let n = (of_char c :: nat)
                   in if 65 \<le> n \<and> n \<le> 90 then char_of (n + 32) else c)"

definition str_lower :: "string \<Rightarrow> string" where
  "str_lower s = map char_lower s"

fun py_truthy :: "yaml \<Rightarrow> bool" where
  "py_truthy YNull = False"
| "py_truthy (YBool b) = b"
| "py_truthy (YInt n) = (n \<noteq> 0)"
| "py_truthy (YFloat x) = (x \<noteq> 0)"
| "py_truthy (YStr s) = (s \<noteq> [])"
| "py_truthy (YList l) = (l \<noteq> [])"
| "py_truthy (YDict d) = (d \<noteq> [])"

text \<open>The niqqud characters are the code points from 0x0591 to 0x05C7.\<close>

definition remove_niqqud :: "string \<Rightarrow> string" where
  "remove_niqqud message_text =
     filter (\<lambda>c. \<not> (0x0591 \<le> (of_char c :: nat) \<and> (of_char c :: nat) \<le> 0x05C7)) message_text"

text \<open>
  \<^verbatim>\<open>convert_yaml_str\<close> on a string. The decoder \<^verbatim>\<open>yaml.safe_load\<close> is a parameter, \<open>None\<close>
  where it raises (the source logs the error and returns \<^verbatim>\<open>None\<close>); so is the constant
  \<^verbatim>\<open>QUOTE_CHAR_SUBSTITUTE\<close>, which \<^verbatim>\<open>const.py\<close> defines. The three replacements turn
  every backslash-quote of the text into the substitute and leave the other quotes as they
  are.
\<close>

definition convert_yaml_str :: "string \<Rightarrow> (string \<Rightarrow> yaml option) \<Rightarrow> string \<Rightarrow> yaml" where
  "convert_yaml_str QUOTE_CHAR_SUBSTITUTE yaml_safe_load yaml_string =
     (if yaml_string = [] then YDict []
      else
        (let yaml_string =
               str_replace [CHR 0x5C, CHR 0x27] [CHR 0x27]
                 (str_replace [CHR 0x5C, CHR 0x5C, CHR 0x27] QUOTE_CHAR_SUBSTITUTE
                    (str_replace [CHR 0x27] [CHR 0x5C, CHR 0x27] yaml_string))
         in case yaml_safe_load yaml_string of
              Some yaml_object \<Rightarrow> yaml_object
            | None \<Rightarrow> YNull))"

text \<open>
  One entry of the decoded list: short form is rewritten to long form, and the flag says
  whether the entry is valid. Entries that are no mappings make the list invalid, and an
  invalid list is dropped, so only the mappings are collected.
\<close>

definition short_to_long :: "string \<Rightarrow> py_dict \<Rightarrow> py_error + (py_dict \<times> bool)" where
  "short_to_long QUOTE_CHAR_SUBSTITUTE elem =
     (if \<not> dict_contains ''type'' elem then
        (if dict_contains ''chime'' elem then
           (case map_of elem ''chime'' of
              Some (YStr chime) \<Rightarrow>
                Inr (dict_del ''chime''
                       (dict_set ''path'' (YStr (str_replace QUOTE_CHAR_SUBSTITUTE [CHR 0x27] chime))
                          (dict_set ''type'' (YStr ''chime'') elem)), True)
            | _ \<Rightarrow> Inl AttributeError)
         else if dict_contains ''tts'' elem then
           (case map_of elem ''tts'' of
              Some (YStr tts) \<Rightarrow>
                Inr (dict_del ''tts''
                       (dict_set ''message'' (YStr (str_replace QUOTE_CHAR_SUBSTITUTE [CHR 0x27] tts))
                          (dict_set ''type'' (YStr ''tts'') elem)), True)
            | _ \<Rightarrow> Inl AttributeError)
         else if dict_contains ''delay'' elem then
           (case map_of elem ''delay'' of
              Some delay \<Rightarrow>
                Inr (dict_del ''delay''
                       (dict_set ''length'' delay (dict_set ''type'' (YStr ''delay'') elem)), True)
            | None \<Rightarrow> Inl (KeyError ''delay''))
         else Inr (elem, False))
      else Inr (elem, True))"

fun validate_elems :: "string \<Rightarrow> yaml list \<Rightarrow> py_error + (py_dict list \<times> bool)" where
  "validate_elems q [] = Inr ([], True)"
| "validate_elems q (elem # elems) =
     (case (case elem of
              YDict d \<Rightarrow> map_sum id (\<lambda>(d', valid). ([d'], valid)) (short_to_long q d)
            | _ \<Rightarrow> Inr ([], False)) of
        Inl e \<Rightarrow> Inl e
      | Inr (ds, valid) \<Rightarrow>
          (case validate_elems q elems of
             Inl e \<Rightarrow> Inl e
           | Inr (ds', valid') \<Rightarrow> Inr (ds @ ds', valid \<and> valid')))"

text \<open>
  The final adjustments. The keys of a nested mapping are lowercased in place while the source
  iterates over it; storing under a key that is not there yet changes its size, and the
  iteration raises \<^verbatim>\<open>RuntimeError\<close>.
\<close>

fun lower_nested_keys :: "string list \<Rightarrow> py_dict \<Rightarrow> py_error + py_dict" where
  "lower_nested_keys [] value = Inr value"
| "lower_nested_keys (key_n # keys) value =
     (case map_of value key_n of
        None \<Rightarrow> Inl (KeyError key_n)
      | Some value_n \<Rightarrow>
          if dict_contains (str_lower key_n) value
          then lower_nested_keys keys (dict_set (str_lower key_n) value_n value)
          else Inl RuntimeError)"

fun lower_keys :: "py_dict \<Rightarrow> py_dict \<Rightarrow> py_error + py_dict" where
  "lower_keys [] segment = Inr segment"
| "lower_keys ((key, value) # items) segment =
     (case (case value of
              YDict v \<Rightarrow> map_sum id YDict (lower_nested_keys (map fst v) v)
            | _ \<Rightarrow> Inr value) of
        Inl e \<Rightarrow> Inl e
      | Inr value' \<Rightarrow> lower_keys items (dict_set (str_lower key) value' segment))"

definition rename_key :: "string \<Rightarrow> string \<Rightarrow> py_dict \<Rightarrow> py_dict" where
  "rename_key old new segment =
     (case map_of segment old of
        Some v \<Rightarrow> if py_truthy v then dict_del old (dict_set new v segment) else segment
      | None \<Rightarrow> segment)"

definition repeat_count :: "py_dict \<Rightarrow> nat" where
  "repeat_count segment =
     (case map_of segment ''repeat'' of
        Some (YInt repeat) \<Rightarrow> nat (max repeat 1)
      | _ \<Rightarrow> 1)"

fun final_adjustments :: "py_dict list \<Rightarrow> py_error + py_dict list" where
  "final_adjustments [] = Inr []"
| "final_adjustments (segment_n # segments) =
     (case lower_keys segment_n [] of
        Inl e \<Rightarrow> Inl e
      | Inr segment \<Rightarrow>
          (let segment = rename_key ''speed'' ''tts_speed'' segment;
               segment = rename_key ''pitch'' ''tts_pitch'' segment
           in case final_adjustments segments of
                Inl e \<Rightarrow> Inl e
              | Inr final_segments \<Rightarrow>
                  Inr (replicate (repeat_count segment) segment @ final_segments)))"

definition parse_message ::
  "string \<Rightarrow> (string \<Rightarrow> yaml option) \<Rightarrow> string \<Rightarrow> py_error + py_dict list" where
  "parse_message QUOTE_CHAR_SUBSTITUTE yaml_safe_load message_string =
     (let message_string = remove_niqqud message_string
      in if length message_string = 0 \<or> message_string = ''None'' then Inr []
         else
           (let message_yaml = convert_yaml_str QUOTE_CHAR_SUBSTITUTE yaml_safe_load message_string
            in case (case message_yaml of
                       YList elems \<Rightarrow>
                         map_sum id (\<lambda>(ds, is_valid). if is_valid then ds else [])
                           (validate_elems QUOTE_CHAR_SUBSTITUTE elems)
                     | _ \<Rightarrow> Inr []) of
                 Inl e \<Rightarrow> Inl e
               | Inr segments \<Rightarrow>
                   final_adjustments
                     (if length segments = 0
                      then [[(''type'', YStr ''tts''), (''message'', YStr message_string)]]
                      else segments)))"

text \<open>
  Two messages with an escaped quote, in long and in short form, and what
  \<^verbatim>\<open>yaml.safe_load\<close> decodes from the two texts that \<^verbatim>\<open>convert_yaml_str\<close> hands it when the
  substitute is \<^verbatim>\<open><q>\<close>: flow sequences of one flow mapping with single-quoted scalars.
\<close>

definition long_form_text :: string where
  "long_form_text = ''[{'type': 'tts', 'message': 'it'' @ [CHR 0x5C] @ '''s'}]''"

definition short_form_text :: string where
  "short_form_text = ''[{'tts': 'it'' @ [CHR 0x5C] @ '''s'}]''"

definition flow_decoder :: "string \<Rightarrow> yaml option" where
  "flow_decoder text =
     (if text = ''[{'type': 'tts', 'message': 'it<q>s'}]''
      then Some (YList [YDict [(''type'', YStr ''tts''), (''message'', YStr ''it<q>s'')]])
      else if text = ''[{'tts': 'it<q>s'}]''
      then Some (YList [YDict [(''tts'', YStr ''it<q>s'')]])
      else None)"


section \<open>Combining two buffers\<close>

lemma zip_take_whole: "zip xs (take (length xs) ys) = zip xs ys"
proof (induction xs arbitrary: ys)
  case Nil
  show ?case by simp
next
  case (Cons x xs)
  show ?case by (cases ys) (simp_all add: Cons.IH)
qed

lemma length_AudioSegment_overlay:
  "position \<le> length seg1 \<Longrightarrow>
     length (AudioSegment_overlay mix seg1 seg2 position) = length seg1"
  by (auto simp: AudioSegment_overlay_def min_def)

text \<open>
  Claim C5. For buffers \<open>a\<close> and \<open>b\<close> that are both present, combining with offset 0 gives
  a buffer of length \<open>len a + len b\<close>, and combining with an offset \<open>d > 0\<close> gives a buffer
  of length \<open>len a + d + len b\<close>.
\<close>

theorem combine_audio_length:
  "map_option length (combine_audio mix sil (Some a) (Some b) 0)
     = Some (length a + length b)
   \<and> (0 < d \<longrightarrow>
        map_option (\<lambda>r. int (length r)) (combine_audio mix sil (Some a) (Some b) d)
          = Some (int (length a) + d + int (length b)))"
  by (simp add: combine_audio_def AudioSegment_silent_def)

theorem combine_audio_length_witness:
  "map_option length (combine_audio (+) 0 (Some [1, 2, 3 :: int]) (Some [4, 5]) 0)
     = Some (length [1, 2, 3 :: int] + length [4, 5 :: int])
   \<and> (0 < (2 :: int) \<and>
        map_option (\<lambda>r. int (length r)) (combine_audio (+) 0 (Some [1, 2, 3 :: int]) (Some [4, 5]) 2)
          = Some (int (length [1, 2, 3 :: int]) + 2 + int (length [4, 5 :: int])))"
  using combine_audio_length [of "(+)" "0 :: int" "[1, 2, 3]" "[4, 5]" 2] by simp

text \<open>
  Claim C6. For present buffers \<open>a\<close>, \<open>b\<close> and \<open>0 < d \<le> len a\<close>, the overlay
  \<open>combine_audio a b (- d)\<close> keeps the prefix of \<open>a\<close> before the overlap point
  \<open>len a - d\<close> untouched; from the overlap point on, \<open>b\<close> is mixed onto the rest of \<open>a\<close>,
  and what \<open>b\<close> has beyond \<open>d\<close> milliseconds follows unmixed.
\<close>

theorem overlay_keeps_prefix:
  assumes "0 < d" and "d \<le> int (length a)"
  shows "\<exists>r. combine_audio mix sil (Some a) (Some b) (- d) = Some r
           \<and> take (length a - nat d) r = take (length a - nat d) a
           \<and> drop (length a - nat d) r
               = AudioSegment_overlay mix (drop (length a - nat d) a) b 0 @ drop (nat d) b
           \<and> r = take (length a - nat d) a
                   @ map2 mix (drop (length a - nat d) a) b
                   @ drop (length a - nat d + length b) a
                   @ drop (nat d) b"
proof -
  let ?p = "length a - nat d"
  from assms have p: "nat (max 0 (int (length a) - \<bar>- d\<bar>)) = ?p"
    by (simp add: nat_diff_distrib)
  from assms have neg: "- d < 0" by simp
  have ov: "overlay mix a b (- d) =
      take ?p a @ map2 mix (drop ?p a) b @ drop (?p + length b) a @ drop (nat d) b"
    using assms p
    by (simp add: overlay_def Let_def AudioSegment_overlay_def)
  have "combine_audio mix sil (Some a) (Some b) (- d) = Some (overlay mix a b (- d))"
    using neg by (simp add: combine_audio_def)
  then show ?thesis
    using ov by (simp add: AudioSegment_overlay_def add.commute)
qed

theorem overlay_keeps_prefix_witness:
  "\<exists>r. combine_audio (+) 0 (Some [1, 2, 3, 4 :: int]) (Some [10, 20, 30]) (- 2) = Some r
     \<and> take 2 r = [1, 2] \<and> r = [1, 2, 13, 24, 30]"
  using overlay_keeps_prefix [of 2 "[1, 2, 3, 4 :: int]" "(+)" 0 "[10, 20, 30]"]
  by (simp add: AudioSegment_overlay_def)

text \<open>
  Claim C10. For present buffers \<open>a\<close>, \<open>b\<close> and \<open>d > len a\<close>, the overlay
  \<open>combine_audio a b (- d)\<close> has length \<open>len a + max 0 (len b - d)\<close>; \<open>b\<close> is mixed onto
  \<open>a\<close> from position 0 and cut at \<open>len a\<close>; the part of \<open>b\<close> between \<open>len a\<close> and \<open>d\<close>
  milliseconds is not in the output, which is the same for every \<open>b'\<close> of the same length
  that agrees with \<open>b\<close> outside that part.
\<close>

theorem overlay_beyond_start:
  assumes "int (length a) < d"
  shows "\<exists>r. combine_audio mix sil (Some a) (Some b) (- d) = Some r
           \<and> int (length r) = int (length a) + max 0 (int (length b) - d)
           \<and> r = map2 mix a (take (length a) b) @ drop (length b) a @ drop (nat d) b
           \<and> (\<forall>b'. length b' = length b \<and> take (length a) b' = take (length a) b
                    \<and> drop (nat d) b' = drop (nat d) b
                 \<longrightarrow> combine_audio mix sil (Some a) (Some b') (- d) = Some r)"
proof -
  from assms have d0: "0 < d" by linarith
  from assms have p: "nat (max 0 (int (length a) - \<bar>- d\<bar>)) = 0"
    by simp
  have zip_cut: "map2 mix a c = map2 mix a (take (length a) c)" for c :: "'a list"
    by (simp add: zip_take_whole)
  have ov: "overlay mix a c (- d) =
      map2 mix a (take (length a) c) @ drop (length c) a @ drop (nat d) c" for c
    using d0 p zip_cut [of c]
    by (simp add: overlay_def Let_def AudioSegment_overlay_def)
  have comb: "combine_audio mix sil (Some a) (Some c) (- d) = Some (overlay mix a c (- d))" for c
    using d0 by (simp add: combine_audio_def)
  have len: "int (length (overlay mix a b (- d))) = int (length a) + max 0 (int (length b) - d)"
    using d0 assms by (auto simp: ov min_def max_def)
  show ?thesis
    using len by (simp add: comb ov)
qed

theorem overlay_beyond_start_witness:
  "\<exists>r. combine_audio (+) 0 (Some [1, 2 :: int]) (Some [10, 20, 30, 40, 50]) (- 4) = Some r
     \<and> int (length r) = 3 \<and> r = [11, 22, 50]
     \<and> combine_audio (+) 0 (Some [1, 2 :: int]) (Some [10, 20, 77, 88, 50]) (- 4) = Some r"
  using overlay_beyond_start [of "[1, 2 :: int]" 4 "(+)" 0 "[10, 20, 30, 40, 50]"]
  by simp

section \<open>The tempo chain\<close>

lemma atempo_loop_chain:
  "0 < x \<Longrightarrow> x < 1/2 \<Longrightarrow> 1/2 \<le> x * 2 ^ n \<Longrightarrow>
     \<exists>k r. atempo_loop x acc = Some (acc @ replicate k (1/2) @ [r])
          \<and> 1/2 \<le> r \<and> r < 1 \<and> r = x * 2 ^ Suc k"
proof (induction n arbitrary: x acc)
  case 0
  then show ?case by simp
next
  case (Suc n)
  show ?case
  proof (cases "1/2 \<le> x * 2")
    case True
    with Suc.prems have "atempo_loop x acc = Some (acc @ replicate 0 (1/2) @ [x * 2])"
      by (subst atempo_loop.simps) (simp add: Let_def)
    with True Suc.prems show ?thesis
      by (intro exI [of _ 0] exI [of _ "x * 2"]) simp
  next
    case False
    with Suc.prems have step: "atempo_loop x acc = atempo_loop (x * 2) (acc @ [1/2])"
      by (subst atempo_loop.simps) (simp add: Let_def)
    from False Suc.prems have "0 < x * 2" "x * 2 < 1/2" "1/2 \<le> (x * 2) * 2 ^ n"
      by (simp_all add: mult.assoc)
    from Suc.IH [OF this, of "acc @ [1/2]"] obtain k r where
      kr: "atempo_loop (x * 2) (acc @ [1/2]) = Some ((acc @ [1/2]) @ replicate k (1/2) @ [r])"
        "1/2 \<le> r" "r < 1" "r = (x * 2) * 2 ^ Suc k"
      by blast
    show ?thesis
      using step kr
      by (intro exI [of _ "Suc k"] exI [of _ r]) (simp add: mult.assoc)
  qed
qed

lemma pow2_reaches_half: "0 < (x::real) \<Longrightarrow> \<exists>n. 1/2 \<le> x * 2 ^ n"
proof -
  assume x: "0 < x"
  obtain n where "1 / (2 * x) < 2 ^ n"
    using real_arch_pow [of 2 "1 / (2 * x)"] by auto
  with x have "1/2 < x * 2 ^ n"
    by (simp add: field_simps)
  then show ?thesis by (intro exI [of _ n]) simp
qed

lemma fold_atempo_stage:
  "fold (atempo_stage str_float) ts (Some s)
     = Some (s @ concat (map (\<lambda>tempo_n. '',atempo='' @ str_float tempo_n) ts))"
  by (induction ts arbitrary: s) (simp_all add: atempo_stage_def)

lemma atempo_string_of_stages:
  assumes "atempo_values t = Some (t0 # rest)"
  shows "add_atempo_values_to_ffmpeg_args_string str_float t args
     = Some (Some (case args of
                     None \<Rightarrow> ''-af atempo='' @ str_float t0
                              @ concat (map (\<lambda>tempo_n. '',atempo='' @ str_float tempo_n) rest)
                   | Some s \<Rightarrow> s @ concat (map (\<lambda>tempo_n. '',atempo='' @ str_float tempo_n)
                                            (t0 # rest))))"
proof (cases args)
  case None
  have "fold (atempo_stage str_float) (t0 # rest) None
      = fold (atempo_stage str_float) rest (Some (''-af atempo='' @ str_float t0))"
    by (simp add: atempo_stage_def)
  with None assms show ?thesis
    by (simp add: add_atempo_values_to_ffmpeg_args_string_def fold_atempo_stage
        del: fold_simps)
next
  case (Some s)
  with assms show ?thesis
    by (simp add: add_atempo_values_to_ffmpeg_args_string_def fold_atempo_stage
        del: fold_simps)
qed

text \<open>
  Claim C2. For every tempo factor \<open>t > 0\<close> the loop returns, and the stage list is: for
  \<open>t < 0.5\<close> a chain of stages \<open>0.5\<close> followed by one residual stage \<open>r \<ge> 0.5\<close>, otherwise
  the single stage \<open>t\<close>; the product of the stages is \<open>t\<close>. The string that
  \<^verbatim>\<open>add_atempo_values_to_ffmpeg_args_string\<close> returns holds exactly these stages, in this
  order: after \<^verbatim>\<open>-af atempo=\<close> when there is no string to extend, or appended to the string
  to extend, each stage after the first position written \<^verbatim>\<open>,atempo=\<close>.
\<close>

theorem atempo_stages:
  assumes "0 < t"
  shows "\<exists>t0 rest.
           atempo_values t = Some (t0 # rest) \<and> prod_list (t0 # rest) = t
           \<and> (if t < 0.5
               then \<exists>k r. t0 # rest = replicate (Suc k) 0.5 @ [r] \<and> 0.5 \<le> r
               else t0 # rest = [t])
           \<and> add_atempo_values_to_ffmpeg_args_string str_float t args
               = Some (Some (case args of
                     None \<Rightarrow> ''-af atempo='' @ str_float t0
                              @ concat (map (\<lambda>tempo_n. '',atempo='' @ str_float tempo_n) rest)
                   | Some s \<Rightarrow> s @ concat (map (\<lambda>tempo_n. '',atempo='' @ str_float tempo_n)
                                            (t0 # rest))))"
proof (cases "t < 1/2")
  case False
  then have v: "atempo_values t = Some (t # [])"
    by (simp add: atempo_values_def)
  from False atempo_string_of_stages [OF v, of str_float args] v show ?thesis
    by (intro exI [of _ t] exI [of _ "[]"]) simp
next
  case True
  from assms obtain n where "1/2 \<le> t * 2 ^ n"
    using pow2_reaches_half by blast
  from atempo_loop_chain [OF assms True this, of "[1/2]"] obtain k r where
    kr: "atempo_loop t [1/2] = Some ([1/2] @ replicate k (1/2) @ [r])"
      "1/2 \<le> r" "r = t * 2 ^ Suc k"
    by blast
  let ?rest = "replicate k (1/2) @ [r]"
  from True kr(1) have v: "atempo_values t = Some ((1/2) # ?rest)"
    by (simp add: atempo_values_def)
  have "prod_list ((1/2) # ?rest) = (1/2) ^ Suc k * r"
    by (simp add: prod_list_replicate)
  also have "\<dots> = t"
    using kr(3) by (simp add: power_one_over field_simps)
  finally have prod: "prod_list ((1/2) # ?rest) = t" .
  have shape: "\<exists>k' r'. (1/2) # ?rest = replicate (Suc k') (5/10) @ [r'] \<and> 5/10 \<le> r'"
    using kr(2) by (intro exI [of _ k] exI [of _ r]) simp
  from True v prod shape atempo_string_of_stages [OF v, of str_float args] show ?thesis
    by (intro exI [of _ "1/2"] exI [of _ ?rest]) simp
qed

text \<open>
  At \<open>t = 0.1\<close>, with a formatter that writes every stage as \<^verbatim>\<open>x\<close>: three stages \<open>0.5\<close>
  and the residual \<open>0.8\<close>.
\<close>

theorem atempo_stages_witness:
  "(0::real) < 1/10
   \<and> (\<exists>t0 rest. atempo_values (1/10) = Some (t0 # rest) \<and> prod_list (t0 # rest) = 1/10
          \<and> (\<exists>k r. t0 # rest = replicate (Suc k) (1/2) @ [r] \<and> 1/2 \<le> r)
          \<and> add_atempo_values_to_ffmpeg_args_string (\<lambda>x. ''x'') (1/10) None
              = Some (Some (''-af atempo=x'' @ concat (map (\<lambda>tempo_n. '',atempo=x'') rest))))"
  using atempo_stages [of "1/10" "\<lambda>x. ''x''" None] by simp

lemma atempo_values_one_tenth: "atempo_values (1/10) = Some [1/2, 1/2, 1/2, 4/5]"
  by (simp add: atempo_values_def atempo_loop.simps Let_def)

lemma atempo_string_one_tenth:
  "add_atempo_values_to_ffmpeg_args_string str_float (1/10) None
     = Some (Some (''-af atempo='' @ str_float (1/2) @ '',atempo='' @ str_float (1/2)
                   @ '',atempo='' @ str_float (1/2) @ '',atempo='' @ str_float (4/5)))"
  by (simp add: add_atempo_values_to_ffmpeg_args_string_def atempo_values_one_tenth
      atempo_stage_def)

text \<open>Speed 50 is the tempo factor 0.5 and gives the single stage \<^verbatim>\<open>atempo=0.5\<close>.\<close>

lemma atempo_string_half:
  "add_atempo_values_to_ffmpeg_args_string str_float (1/2) None
     = Some (Some (''-af atempo='' @ str_float (1/2)))"
  by (simp add: add_atempo_values_to_ffmpeg_args_string_def atempo_values_def atempo_stage_def)

section \<open>Running the transcoder invoker\<close>

lemmas invoker_defs =
  async_ffmpeg_convert_from_audio_segment_def scratch_folder_env_def ffmpeg_convert_from_file_def
  ffmpeg_convert_try_def converted_file_path_for_def select_converted_file_path_def
  os_path_exists_def str_split_def isspace_def remove_if_present_def os_remove_def
  shutil_move_def insert_Diff_if

text \<open>
  A conversion that succeeds, for comparison: the converted buffer is returned and the
  scratch folder is empty again, both on the default path and with an output format.
\<close>

lemma convert_success_default:
  "async_ffmpeg_convert_from_audio_segment (scratch_folder_env 0 [7, 7, 7 :: int])
     (Some [1, 2]) ''-af atempo=0.5'' ''/tmp'' {} = (Inr (Some [7, 7, 7]), {})"
  by (simp add: invoker_defs)

lemma convert_success_wav:
  "async_ffmpeg_convert_from_audio_segment (scratch_folder_env 0 [7, 7, 7 :: int])
     (Some [1, 2]) ''-f wav'' ''/tmp'' {} = (Inr (Some [7, 7, 7]), {})"
  by (simp add: invoker_defs)

text \<open>
  Claim C1 says that the conversion never raises and returns the original buffer on any
  internal error, in particular for an argument string with \<^verbatim>\<open>-f mp3\<close>. With \<^verbatim>\<open>-f mp3\<close>
  the source leaves \<^verbatim>\<open>converted_file_path\<close> unassigned, the comparison with the input
  path raises \<^verbatim>\<open>UnboundLocalError\<close>, the handler raises again on the unassigned
  \<^verbatim>\<open>ffmpeg_cmd_string\<close>, and the caller has no handler: the exception reaches the caller
  of the conversion, and the temp file stays.
\<close>

theorem convert_f_mp3_raises:
  "async_ffmpeg_convert_from_audio_segment (scratch_folder_env 0 [7, 7, 7 :: int])
     (Some [1, 2]) ''-f mp3'' ''/tmp'' {}
   = (Inl (UnboundLocalError ''ffmpeg_cmd_string''), {''/tmp/temp_segment.mp3''})"
  by (simp add: invoker_defs)

text \<open>
  Claim C3 says that the output path never equals the input path because a colliding
  format swap falls back to the \<^verbatim>\<open>_converted\<close> suffix. For the input
  \<^verbatim>\<open>/tmp/temp_segment.mp3\<close> and \<^verbatim>\<open>-f mp3\<close>, the case in which the swap would collide, no
  output path is computed at all: the path computation raises, and so does
  \<^verbatim>\<open>ffmpeg_convert_from_file\<close>.
\<close>

theorem converted_path_f_mp3_unassigned:
  "converted_file_path_for ''/tmp/temp_segment.mp3'' ''-f mp3''
     = Inl (UnboundLocalError ''converted_file_path'')
   \<and> ffmpeg_convert_from_file (scratch_folder_env 0 [7, 7, 7 :: int])
       ''/tmp/temp_segment.mp3'' ''-f mp3'' {''/tmp/temp_segment.mp3''}
     = (Inl (UnboundLocalError ''ffmpeg_cmd_string''), {''/tmp/temp_segment.mp3''})"
  by (simp add: invoker_defs)

text \<open>
  The fallback itself replaces \<^verbatim>\<open>.mp3\<close>, so for an input path without \<^verbatim>\<open>.mp3\<close> it gives
  the input path back.
\<close>

lemma converted_path_without_mp3:
  "converted_file_path_for ''/tmp/a.wav'' ''-f wav'' = Inr ''/tmp/a.wav''"
  by (simp add: invoker_defs)

text \<open>Replacing a word that occurs by a different word changes the text.\<close>

lemma str_replace_at_match:
  "old \<noteq> [] \<Longrightarrow> prefix old (c # cs) \<Longrightarrow>
     str_replace old new (c # cs) = new @ str_replace old new (drop (length old - 1) cs)"
  by simp

lemma str_replace_no_match:
  "old \<noteq> [] \<Longrightarrow> \<not> prefix old (c # cs) \<Longrightarrow>
     str_replace old new (c # cs) = c # str_replace old new cs"
  by simp

lemma str_replace_length_ge:
  "old \<noteq> [] \<Longrightarrow> length old \<le> length new \<Longrightarrow> length s \<le> length (str_replace old new s)"
proof (induction old new s rule: str_replace.induct)
  case (1 old new)
  then show ?case by simp
next
  case (2 old new c cs)
  from "2.prems" have pos: "0 < length old" by simp
  show ?case
  proof (cases "prefix old (c # cs)")
    case True
    then have len: "length old \<le> Suc (length cs)"
      by (auto dest: prefix_length_le)
    have "length (drop (length old - 1) cs)
        \<le> length (str_replace old new (drop (length old - 1) cs))"
      by (rule "2.IH"(2) [OF "2.prems"(1) True "2.prems"])
    then have "length cs - (length old - 1)
        \<le> length (str_replace old new (drop (length old - 1) cs))"
      by simp
    with len pos "2.prems"(2) show ?thesis
      unfolding str_replace_at_match [OF "2.prems"(1) True] length_append length_Cons
      by linarith
  next
    case False
    have "length cs \<le> length (str_replace old new cs)"
      by (rule "2.IH"(3) [OF "2.prems"(1) False "2.prems"])
    then show ?thesis
      unfolding str_replace_no_match [OF "2.prems"(1) False] by simp
  qed
qed

lemma str_replace_length_le:
  "old \<noteq> [] \<Longrightarrow> length new \<le> length old \<Longrightarrow> length (str_replace old new s) \<le> length s"
proof (induction old new s rule: str_replace.induct)
  case (1 old new)
  then show ?case by simp
next
  case (2 old new c cs)
  from "2.prems" have pos: "0 < length old" by simp
  show ?case
  proof (cases "prefix old (c # cs)")
    case True
    then have len: "length old \<le> Suc (length cs)"
      by (auto dest: prefix_length_le)
    have "length (str_replace old new (drop (length old - 1) cs))
        \<le> length (drop (length old - 1) cs)"
      by (rule "2.IH"(2) [OF "2.prems"(1) True "2.prems"])
    then have "length (str_replace old new (drop (length old - 1) cs))
        \<le> length cs - (length old - 1)"
      by simp
    with len pos "2.prems"(2) show ?thesis
      unfolding str_replace_at_match [OF "2.prems"(1) True] length_append length_Cons
      by linarith
  next
    case False
    have "length (str_replace old new cs) \<le> length cs"
      by (rule "2.IH"(3) [OF "2.prems"(1) False "2.prems"])
    then show ?thesis
      unfolding str_replace_no_match [OF "2.prems"(1) False] by simp
  qed
qed

lemma str_replace_first_occurrence:
  "old \<noteq> [] \<Longrightarrow> sublist old s \<Longrightarrow>
     \<exists>pre post. s = pre @ old @ post
        \<and> str_replace old new s = pre @ new @ str_replace old new post"
proof (induction s)
  case Nil
  then show ?case by simp
next
  case (Cons c cs)
  show ?case
  proof (cases "prefix old (c # cs)")
    case True
    then obtain post where post: "c # cs = old @ post"
      by (auto simp: prefix_def)
    with Cons.prems(1) have "drop (length old - 1) cs = post"
      by (cases old) auto
    then have "str_replace old new (c # cs) = [] @ new @ str_replace old new post"
      using str_replace_at_match [OF Cons.prems(1) True, of new] by simp
    moreover from post have "c # cs = [] @ old @ post" by simp
    ultimately show ?thesis by blast
  next
    case False
    from Cons.prems(2) obtain ps ss where split: "c # cs = ps @ old @ ss"
      by (auto simp: sublist_def)
    with False have "ps \<noteq> []"
      by (auto simp: prefix_def)
    with split obtain ps' where "ps = c # ps'" "cs = ps' @ old @ ss"
      by (cases ps) auto
    then have "sublist old cs"
      by (auto simp: sublist_def)
    from Cons.IH [OF Cons.prems(1) this] obtain pre post where
      "cs = pre @ old @ post" "str_replace old new cs = pre @ new @ str_replace old new post"
      by blast
    then have "c # cs = (c # pre) @ old @ post"
      and "str_replace old new (c # cs) = (c # pre) @ new @ str_replace old new post"
      using str_replace_no_match [OF Cons.prems(1) False, of new] by simp_all
    then show ?thesis by blast
  qed
qed

lemma str_replace_changes:
  assumes "old \<noteq> []" and "old \<noteq> new" and "sublist old s"
  shows "str_replace old new s \<noteq> s"
proof
  assume same: "str_replace old new s = s"
  from str_replace_first_occurrence [OF assms(1,3), of new] obtain pre post where
    s: "s = pre @ old @ post"
    and r: "str_replace old new s = pre @ new @ str_replace old new post"
    by blast
  from same s r have eq: "new @ str_replace old new post = old @ post"
    by simp
  consider "length new < length old" | "length new = length old" | "length old < length new"
    by linarith
  then show False
  proof cases
    case 1
    with str_replace_length_le [OF assms(1), of new post]
    have "length (new @ str_replace old new post) < length (old @ post)" by simp
    with eq show False by simp
  next
    case 2
    with eq have "new = old" by simp
    with assms(2) show False by simp
  next
    case 3
    with str_replace_length_ge [OF assms(1), of new post]
    have "length (old @ post) < length (new @ str_replace old new post)" by simp
    with eq show False by simp
  qed
qed

text \<open>
  Where the claim of C3 does hold: for an input path that contains \<^verbatim>\<open>.mp3\<close>, an output path
  that is computed differs from the input path.
\<close>

lemma converted_path_differs:
  assumes mp3: "sublist ''.mp3'' file_path"
    and computed: "converted_file_path_for file_path ffmpeg_args = Inr converted_file_path"
  shows "converted_file_path \<noteq> file_path"
proof -
  have suffix: "str_replace ''.mp3'' ''_converted.mp3'' file_path \<noteq> file_path"
    using mp3 by (intro str_replace_changes) simp_all
  have swap: "str_replace ''.mp3'' (''.'' @ ext) file_path \<noteq> file_path" if "ext \<noteq> ''mp3''" for ext
    using mp3 that by (intro str_replace_changes) simp_all
  from computed suffix swap show ?thesis
    by (auto simp: converted_file_path_for_def select_converted_file_path_def Let_def
        split: option.splits if_splits)
qed

lemma converted_path_differs_at_wav:
  "converted_file_path_for ''/tmp/temp_segment.mp3'' ''-f wav'' = Inr ''/tmp/temp_segment.wav''"
  by (simp add: invoker_defs)

text \<open>
  Claim C4 says that after a transcoder exit with a non-zero code neither the temp source
  file nor an output file is left. When the transcoder has written its output file before it
  exits with code 1, \<^verbatim>\<open>ffmpeg_convert_from_file\<close> returns \<^verbatim>\<open>False\<close>, the clean-up loop
  has no path to remove but the temp file, and the output file stays in the folder.
\<close>

theorem convert_failure_leaves_output:
  "async_ffmpeg_convert_from_audio_segment (scratch_folder_env 1 [7, 7, 7 :: int])
     (Some [1, 2]) ''-af atempo=0.5'' ''/tmp'' {}
   = (Inr (Some [1, 2]), {''/tmp/temp_segment_converted.mp3''})"
  by (simp add: invoker_defs)

section \<open>Fading the volume\<close>

lemmas fade_defs = async_set_volume_for_media_players_def fade_player_def dict_get_volume_def
  current_volume_level_def living_room_def hass_at_def obedient_devices_def time_sleep_def
  call_volume_set_def py_round_def round_half_even_def set_player_directly_def Let_def

text \<open>A fade from 0.2 to 0.5 in two steps of 500 ms, and a direct set that has nothing to do.\<close>

lemma fade_two_steps:
  "map_sum id (events \<circ> snd)
     (async_set_volume_for_media_players obedient_devices 500 [living_room] (Num (1/2)) 1000
        (hass_at (1/5)))
   = Inr [VolumeSet ''media_player.living_room'' (7/20), Sleep (1/2),
          VolumeSet ''media_player.living_room'' (1/2)]"
  by (simp add: fade_defs upt_rec)

lemma direct_set_at_target:
  "async_set_volume_for_media_players obedient_devices 500 [living_room] (Num (1/2)) 0
     (hass_at (1/2)) = Inr ([living_room], hass_at (1/2))"
  by (simp add: fade_defs)

text \<open>
  Claim C7 says that a device that is at its target volume at the first step gets no
  intermediate command and that the fade completes without error for every duration. With
  a duration of two steps, the device is skipped at step 0 (\<^verbatim>\<open>continue\<close>) before
  \<^verbatim>\<open>volume_steps\<close> is stored; at step 1 it is not skipped, and reading
  \<^verbatim>\<open>media_player_dict["volume_steps"]\<close> raises \<^verbatim>\<open>KeyError\<close>, outside the \<^verbatim>\<open>try\<close>.
\<close>

theorem fade_at_target_raises:
  "async_set_volume_for_media_players obedient_devices 500 [living_room] (Num (1/2)) 1000
     (hass_at (1/2)) = Inl (KeyError ''volume_steps'')"
  by (simp add: fade_defs upt_rec)

section \<open>Polling until a timeout\<close>

declare wait_loop.simps [simp del] volume_wait_loop.simps [simp del]
  scan_still_waiting.simps [simp del]

lemma ceiling_budget_step:
  "\<lceil>(t - poll_delay) / poll_delay\<rceil> = \<lceil>t / poll_delay\<rceil> - 1"
  by (simp add: poll_delay_def diff_divide_distrib)

lemma ceiling_budget_pos: "0 < t \<Longrightarrow> 1 \<le> \<lceil>t / poll_delay\<rceil>"
  by (simp add: poll_delay_def)

lemma ceiling_budget_nonpos: "t \<le> 0 \<Longrightarrow> \<lceil>t / poll_delay\<rceil> \<le> 0"
  by (simp add: poll_delay_def ceiling_le_iff)

lemma wait_loop_rounds:
  "wait_loop dev condition s = Inr s' \<Longrightarrow>
     rounds s \<le> rounds s'
     \<and> int (rounds s') \<le> int (rounds s) + max 0 \<lceil>timeout_left s / poll_delay\<rceil>
     \<and> timeout_left s' = timeout_left s - real (rounds s' - rounds s) * poll_delay
     \<and> (still_waiting s' = [] \<or> timeout_left s' \<le> 0)"
proof (induction dev condition s rule: wait_loop.induct)
  case (1 dev condition s)
  show ?case
  proof (cases "length (still_waiting s) > 0 \<and> timeout_left s > 0")
    case False
    then have "wait_loop dev condition s = Inr s"
      by (subst wait_loop.simps) auto
    with "1.prems" have "s' = s" by simp
    with False show ?thesis by auto
  next
    case True
    with "1.prems" obtain remaining where
      scan: "scan_still_waiting (condition (world s)) 0 (still_waiting s) = Inr remaining"
      by (cases "scan_still_waiting (condition (world s)) 0 (still_waiting s)")
         (simp_all add: wait_loop.simps [of dev condition s])
    define s1 where "s1 = \<lparr> still_waiting = remaining,
                 timeout_left = timeout_left s - poll_delay,
                 rounds = Suc (rounds s),
                 world = (if length remaining > 0 then time_sleep dev poll_delay (world s)
                          else world s) \<rparr>"
    from True scan "1.prems" have next_call: "wait_loop dev condition s1 = Inr s'"
      by (simp add: wait_loop.simps [of dev condition s] s1_def)
    have IH: "rounds s1 \<le> rounds s'
       \<and> int (rounds s') \<le> int (rounds s1) + max 0 \<lceil>timeout_left s1 / poll_delay\<rceil>
       \<and> timeout_left s' = timeout_left s1 - real (rounds s' - rounds s1) * poll_delay
       \<and> (still_waiting s' = [] \<or> timeout_left s' \<le> 0)"
      unfolding s1_def by (rule "1.IH" [OF True scan next_call [unfolded s1_def]])
    have r1: "rounds s1 = Suc (rounds s)" and t1: "timeout_left s1 = timeout_left s - poll_delay"
      by (simp_all add: s1_def)
    from True have "0 < timeout_left s" by simp
    then have pos: "1 \<le> \<lceil>timeout_left s / poll_delay\<rceil>"
      by (rule ceiling_budget_pos)
    have step: "\<lceil>timeout_left s1 / poll_delay\<rceil> = \<lceil>timeout_left s / poll_delay\<rceil> - 1"
      unfolding t1 by (rule ceiling_budget_step)
    have a: "rounds s \<le> rounds s'"
      using IH r1 by linarith
    have b: "int (rounds s') \<le> int (rounds s) + max 0 \<lceil>timeout_left s / poll_delay\<rceil>"
      using IH r1 pos step by linarith
    have "real (rounds s' - rounds s) = real (rounds s' - rounds s1) + 1"
      using IH r1 by (simp add: of_nat_diff)
    moreover have "timeout_left s' = timeout_left s1 - real (rounds s' - rounds s1) * poll_delay"
      using IH by blast
    ultimately have c: "timeout_left s' = timeout_left s - real (rounds s' - rounds s) * poll_delay"
      by (simp add: t1 algebra_simps)
    have d: "still_waiting s' = [] \<or> timeout_left s' \<le> 0"
      using IH by blast
    from a b c d show ?thesis by blast
  qed
qed

lemma scan_never_satisfied:
  "\<forall>d. condition d = Inr False \<Longrightarrow> scan_still_waiting condition i xs = Inr xs"
proof (induction condition i xs rule: scan_still_waiting.induct)
  case (1 condition i xs)
  have c: "condition (xs ! i) = Inr False"
    using "1.prems" by simp
  show ?case
  proof (cases "i < length xs")
    case True
    have "scan_still_waiting condition (Suc i) xs = Inr xs"
      by (rule "1.IH"(2) [OF True c refl "1.prems"])
    with True c show ?thesis
      by (subst scan_still_waiting.simps) simp
  next
    case False
    then show ?thesis
      by (subst scan_still_waiting.simps) simp
  qed
qed

lemma volume_wait_loop_rounds:
  "int (polls (volume_wait_loop dev ds target timeout n h))
     \<le> int n + max 0 \<lceil>timeout / poll_delay\<rceil>
   \<and> budget_left (volume_wait_loop dev ds target timeout n h)
       + real (polls (volume_wait_loop dev ds target timeout n h)) * poll_delay
     = timeout + real n * poll_delay
       + (if reached (volume_wait_loop dev ds target timeout n h) then poll_delay else 0)"
proof (induction dev ds target timeout n h rule: volume_wait_loop.induct)
  case (1 dev ds target timeout n h)
  show ?case
  proof (cases "timeout > 0")
    case False
    then have "volume_wait_loop dev ds target timeout n h
        = \<lparr> reached = False, budget_left = timeout, polls = n, world_after = h \<rparr>"
      by (subst volume_wait_loop.simps) simp
    then show ?thesis by simp
  next
    case True
    then have pos: "1 \<le> \<lceil>timeout / poll_delay\<rceil>" by (rule ceiling_budget_pos)
    show ?thesis
    proof (cases "volume_reached_at h ds target")
      case reached: True
      with True have "volume_wait_loop dev ds target timeout n h
          = \<lparr> reached = True, budget_left = timeout, polls = Suc n, world_after = h \<rparr>"
        by (subst volume_wait_loop.simps) simp
      with pos show ?thesis by (simp add: algebra_simps)
    next
      case notyet: False
      let ?next = "volume_wait_loop dev ds target (timeout - poll_delay) (Suc n)
              (time_sleep dev poll_delay h)"
      from True notyet have unfold: "volume_wait_loop dev ds target timeout n h = ?next"
        by (subst volume_wait_loop.simps) simp
      have IH: "int (polls ?next) \<le> int (Suc n) + max 0 \<lceil>(timeout - poll_delay) / poll_delay\<rceil>
          \<and> budget_left ?next + real (polls ?next) * poll_delay
            = (timeout - poll_delay) + real (Suc n) * poll_delay
              + (if reached ?next then poll_delay else 0)"
        by (rule "1.IH" [OF True notyet])
      have step: "\<lceil>(timeout - poll_delay) / poll_delay\<rceil> = \<lceil>timeout / poll_delay\<rceil> - 1"
        by (rule ceiling_budget_step)
      have "int (polls ?next) \<le> int n + max 0 \<lceil>timeout / poll_delay\<rceil>"
        using IH step pos by linarith
      moreover have "budget_left ?next + real (polls ?next) * poll_delay
            = timeout + real n * poll_delay + (if reached ?next then poll_delay else 0)"
        using IH by (simp add: algebra_simps)
      ultimately show ?thesis unfolding unfold by blast
    qed
  qed
qed

lemma wait_loop_never_satisfied:
  "\<forall>w d. condition w d = Inr False \<Longrightarrow> still_waiting s \<noteq> [] \<Longrightarrow>
     \<exists>s'. wait_loop dev condition s = Inr s' \<and> still_waiting s' = still_waiting s
          \<and> int (rounds s') = int (rounds s) + max 0 \<lceil>timeout_left s / poll_delay\<rceil>"
proof (induction dev condition s rule: wait_loop.induct)
  case (1 dev condition s)
  show ?case
  proof (cases "timeout_left s > 0")
    case False
    then have "wait_loop dev condition s = Inr s"
      by (subst wait_loop.simps) auto
    moreover from False have "\<lceil>timeout_left s / poll_delay\<rceil> \<le> 0"
      by (intro ceiling_budget_nonpos) simp
    ultimately show ?thesis by simp
  next
    case True
    with "1.prems" have guard: "0 < length (still_waiting s) \<and> 0 < timeout_left s"
      by simp
    have scan: "scan_still_waiting (condition (world s)) 0 (still_waiting s)
        = Inr (still_waiting s)"
      by (rule scan_never_satisfied) (simp add: "1.prems")
    define s1 where "s1 = \<lparr> still_waiting = still_waiting s,
                 timeout_left = timeout_left s - poll_delay,
                 rounds = Suc (rounds s),
                 world = (if length (still_waiting s) > 0
                          then time_sleep dev poll_delay (world s) else world s) \<rparr>"
    from guard scan have unfold: "wait_loop dev condition s = wait_loop dev condition s1"
      by (subst wait_loop.simps) (simp add: s1_def)
    have "still_waiting s1 \<noteq> []"
      using "1.prems" by (simp add: s1_def)
    then have "\<exists>s'. wait_loop dev condition s1 = Inr s' \<and> still_waiting s' = still_waiting s1
          \<and> int (rounds s') = int (rounds s1) + max 0 \<lceil>timeout_left s1 / poll_delay\<rceil>"
      unfolding s1_def by (intro "1.IH" [OF guard scan "1.prems"(1)])
    then obtain s' where s': "wait_loop dev condition s1 = Inr s'"
        "still_waiting s' = still_waiting s1"
        "int (rounds s') = int (rounds s1) + max 0 \<lceil>timeout_left s1 / poll_delay\<rceil>"
      by blast
    have r1: "rounds s1 = Suc (rounds s)" and t1: "timeout_left s1 = timeout_left s - poll_delay"
      and w1: "still_waiting s1 = still_waiting s"
      by (simp_all add: s1_def)
    from True have pos: "1 \<le> \<lceil>timeout_left s / poll_delay\<rceil>"
      by (rule ceiling_budget_pos)
    have step: "\<lceil>timeout_left s1 / poll_delay\<rceil> = \<lceil>timeout_left s / poll_delay\<rceil> - 1"
      unfolding t1 by (rule ceiling_budget_step)
    have "int (rounds s') = int (rounds s) + max 0 \<lceil>timeout_left s / poll_delay\<rceil>"
      using s'(3) r1 pos step by linarith
    with s'(1,2) unfold w1 show ?thesis by simp
  qed
qed

text \<open>
  Claim C8, as amended. For a positive timeout, both polling waits return (they are total
  functions), after at most \<open>\<lceil>timeout / poll_delay\<rceil>\<close> rounds. The shared loop takes
  \<open>poll_delay\<close> off its budget in every round, the volume loop in every round but the one
  that finds the volume reached. If no device ever satisfies the predicate, the shared loop
  takes exactly that many rounds and the waiter returns \<^verbatim>\<open>False\<close>. For a device list that
  is not empty and whose ids all resolve, the waiter returns \<^verbatim>\<open>False\<close> iff a device is
  still waiting when the loop exits. The budget is an exact number here.
\<close>

theorem polling_waits_terminate:
  assumes "0 < timeout"
  shows "(case wait_loop dev condition
               \<lparr> still_waiting = ds, timeout_left = timeout, rounds = 0, world = h \<rparr> of
            Inl e \<Rightarrow> True
          | Inr s' \<Rightarrow>
              int (rounds s') \<le> \<lceil>timeout / poll_delay\<rceil>
              \<and> timeout_left s' = timeout - real (rounds s') * poll_delay
              \<and> (ds \<noteq> [] \<and> (\<forall>d \<in> set ds. states h (entity_id d) \<noteq> None)
                   \<longrightarrow> async_wait_until_media_players dev condition ds timeout h
                         = Inr (still_waiting s' = [])))
       \<and> ((\<forall>w d. condition w d = Inr False) \<and> ds \<noteq> []
             \<and> (\<forall>d \<in> set ds. states h (entity_id d) \<noteq> None)
           \<longrightarrow> async_wait_until_media_players dev condition ds timeout h = Inr False
               \<and> (\<exists>s'. wait_loop dev condition
                          \<lparr> still_waiting = ds, timeout_left = timeout, rounds = 0, world = h \<rparr>
                        = Inr s'
                      \<and> still_waiting s' = ds \<and> int (rounds s') = \<lceil>timeout / poll_delay\<rceil>))
       \<and> (let r = volume_wait_loop dev ds target timeout 0 h
          in int (polls r) \<le> \<lceil>timeout / poll_delay\<rceil>
             \<and> budget_left r + real (polls r) * poll_delay
                 = timeout + (if reached r then poll_delay else 0)
             \<and> async_wait_until_media_player_volume_level dev ds target timeout h = reached r)"
proof -
  let ?start = "\<lparr> still_waiting = ds, timeout_left = timeout, rounds = 0, world = h \<rparr>"
  from assms have pos: "1 \<le> \<lceil>timeout / poll_delay\<rceil>"
    by (rule ceiling_budget_pos)
  have first: "case wait_loop dev condition ?start of
            Inl e \<Rightarrow> True
          | Inr s' \<Rightarrow>
              int (rounds s') \<le> \<lceil>timeout / poll_delay\<rceil>
              \<and> timeout_left s' = timeout - real (rounds s') * poll_delay
              \<and> (ds \<noteq> [] \<and> (\<forall>d \<in> set ds. states h (entity_id d) \<noteq> None)
                   \<longrightarrow> async_wait_until_media_players dev condition ds timeout h
                         = Inr (still_waiting s' = []))"
  proof (cases "wait_loop dev condition ?start")
    case (Inl e)
    then show ?thesis by simp
  next
    case (Inr s')
    from wait_loop_rounds [OF Inr] pos
    have "int (rounds s') \<le> \<lceil>timeout / poll_delay\<rceil>"
      and "timeout_left s' = timeout - real (rounds s') * poll_delay"
      by simp_all
    with Inr show ?thesis
      by (auto simp: async_wait_until_media_players_def)
  qed
  have second: "async_wait_until_media_players dev condition ds timeout h = Inr False
               \<and> (\<exists>s'. wait_loop dev condition ?start = Inr s'
                      \<and> still_waiting s' = ds \<and> int (rounds s') = \<lceil>timeout / poll_delay\<rceil>)"
    if never: "\<forall>w d. condition w d = Inr False" and ne: "ds \<noteq> []"
      and valid: "\<forall>d \<in> set ds. states h (entity_id d) \<noteq> None"
  proof -
    from wait_loop_never_satisfied [OF never, of ?start dev] ne pos
    obtain s' where s': "wait_loop dev condition ?start = Inr s'" "still_waiting s' = ds"
        "int (rounds s') = \<lceil>timeout / poll_delay\<rceil>"
      by auto
    with ne valid show ?thesis
      by (auto simp: async_wait_until_media_players_def)
  qed
  have third: "let r = volume_wait_loop dev ds target timeout 0 h
          in int (polls r) \<le> \<lceil>timeout / poll_delay\<rceil>
             \<and> budget_left r + real (polls r) * poll_delay
                 = timeout + (if reached r then poll_delay else 0)
             \<and> async_wait_until_media_player_volume_level dev ds target timeout h = reached r"
    using volume_wait_loop_rounds [of dev ds target timeout 0 h] pos
    by (simp add: Let_def async_wait_until_media_player_volume_level_def)
  from first second third show ?thesis by blast
qed

theorem polling_waits_terminate_witness:
  "(0 :: real) < 1
   \<and> async_wait_until_media_players obedient_devices never_satisfied [living_room] 1
        (hass_at (1/2)) = Inr False
   \<and> (\<exists>s'. wait_loop obedient_devices never_satisfied
              \<lparr> still_waiting = [living_room], timeout_left = 1, rounds = 0,
                world = hass_at (1/2) \<rparr> = Inr s'
          \<and> still_waiting s' = [living_room] \<and> rounds s' = 5 \<and> timeout_left s' = 0)
   \<and> int (polls (volume_wait_loop obedient_devices [living_room] (1/5) 1 0 (hass_at (1/2))))
       \<le> 5"
  using polling_waits_terminate [where timeout = 1 and dev = obedient_devices
      and condition = never_satisfied and ds = "[living_room]" and h = "hass_at (1/2)"
      and target = "1/5"]
  by (auto simp: never_satisfied_def living_room_def hass_at_def poll_delay_def Let_def)


text \<open>
  Claim C8 as stated, for every device list: for the empty list no device is waiting (the
  loop would leave the list empty after no round), and the waiter returns \<^verbatim>\<open>False\<close>, from
  its validation.
\<close>

theorem waiter_empty_list_counterexample:
  "async_wait_until_media_players obedient_devices never_satisfied [] 1 (hass_at (1/2))
     = Inr False
   \<and> wait_loop obedient_devices never_satisfied
       \<lparr> still_waiting = [], timeout_left = 1, rounds = 0, world = hass_at (1/2) \<rparr>
     = Inr \<lparr> still_waiting = [], timeout_left = 1, rounds = 0, world = hass_at (1/2) \<rparr>"
  by (simp add: async_wait_until_media_players_def wait_loop.simps)

section \<open>Parsing a message with an escaped quote\<close>

lemmas parse_defs = parse_message_def remove_niqqud_def convert_yaml_str_def flow_decoder_def
  short_to_long_def dict_contains_def dict_del_def rename_key_def repeat_count_def
  str_lower_def char_lower_def long_form_text_def short_form_text_def

text \<open>In short form the substitute is turned back into a quote.\<close>

lemma parse_short_form_restores_quote:
  "parse_message ''<q>'' flow_decoder short_form_text
     = Inr [[(''type'', YStr ''tts''), (''message'', YStr ''it's'')]]"
  by (simp add: parse_defs)

text \<open>
  Claim C9 says that after \<^verbatim>\<open>parse_message\<close> the substitute is a quote again in every
  \<^verbatim>\<open>path\<close> and \<^verbatim>\<open>message\<close>, in long form too. The source replaces it only where it
  rewrites short form (\<^verbatim>\<open>elem["chime"]\<close>, \<^verbatim>\<open>elem["tts"]\<close>); an entry that comes with
  \<^verbatim>\<open>type\<close> keeps the substitute in its message.
\<close>

theorem parse_long_form_keeps_substitute:
  "parse_message ''<q>'' flow_decoder long_form_text
     = Inr [[(''type'', YStr ''tts''), (''message'', YStr ''it<q>s'')]]"
  by (simp add: parse_defs)

end
